theory Spec2Isabelle
  imports Main "HOL-Library.Word" "HOL-Library.Multiset"
begin

section \<open>Data model of \<open>datumaro/components/explorer.py\<close>\<close>

text \<open>
  A \<open>HashKey\<close> annotation carries a NumPy array. \<open>np.unpackbits\<close> accepts an array of
  unsigned bytes only, so the payload is either such an array (\<open>UInt8\<close>, a list of
  bytes) or anything else (\<open>NotUInt8\<close>), on which \<open>np.unpackbits\<close> raises.
  Every other kind of annotation is \<open>OtherAnnotation\<close>.
\<close>

datatype ndarray = UInt8 "8 word list" | NotUInt8

datatype annotation = is_HashKey: HashKey (hash_key: ndarray) | OtherAnnotation nat

text \<open>
  Modelled from the spec: \<open>DatasetItem\<close> (class of \<open>datumaro.components.dataset_base\<close>).
  An item is identified inside a collection by its id and subset; the explorer reads its
  annotations only.
\<close>

record dataset_item =
  item_id :: string
  subset :: string
  annotations :: "annotation list"

type_synonym dataset = "dataset_item list"

text \<open>The exceptions the explorer raises or lets through, one constructor per raise site.\<close>

datatype error =
    DatumaroError_ambiguous     \<comment> \<open>"There are more than two HashKey ... It is ambiguous!"\<close>
  | MediaTypeError              \<comment> \<open>"Unexpected media type of query"\<close>
  | ValueError_database         \<comment> \<open>"Database should have hash_key"\<close>
  | ValueError_query            \<comment> \<open>"Query should have hash_key"\<close>
  | ValueError_stack            \<comment> \<open>\<open>np.stack\<close>: "all input arrays must have the same shape"\<close>
  | ValueError_broadcast        \<comment> \<open>\<open>B1 != B2\<close>: operands could not be broadcast together\<close>
  | TypeError_unpackbits        \<comment> \<open>\<open>np.unpackbits\<close>: input is not an unsigned byte array\<close>
  | AttributeError_model        \<comment> \<open>\<open>self._model\<close> is \<open>None\<close> in \<open>self._model.infer_item\<close>\<close>
  | IndexError                  \<comment> \<open>fancy indexing with an index out of bounds\<close>

section \<open>NumPy primitives used by the explorer\<close>

text \<open>
  \<open>np.unpackbits(a, axis=-1)\<close> on a one-dimensional byte array: every byte becomes eight
  bits, most significant bit first. A bit (a \<open>uint8\<close> that is 0 or 1) is a \<open>bool\<close>.
\<close>

definition byte_bits :: "8 word \<Rightarrow> bool list" where
  "byte_bits b = map (\<lambda>i. bit b (7 - i)) [0..<8]"

definition unpackbits :: "ndarray \<Rightarrow> error + bool list" where
  "unpackbits a = (case a of UInt8 bs \<Rightarrow> Inr (concat (map byte_bits bs))
                           | NotUInt8 \<Rightarrow> Inl TypeError_unpackbits)"

text \<open>
  \<open>B1 != B2\<close> for a vector \<open>B1\<close> and one row of \<open>B2\<close>, with NumPy's broadcasting: equal
  lengths compare position by position, a length of one is stretched, anything else fails.
\<close>

definition not_equal_row :: "bool list \<Rightarrow> bool list \<Rightarrow> error + bool list" where
  "not_equal_row b1 row =
     (if length b1 = length row then Inr (map (\<lambda>(x, y). x \<noteq> y) (zip b1 row))
      else if length b1 = 1 then Inr (map (\<lambda>y. hd b1 \<noteq> y) row)
      else if length row = 1 then Inr (map (\<lambda>x. x \<noteq> hd row) b1)
      else Inl ValueError_broadcast)"

definition count_nonzero :: "bool list \<Rightarrow> int" where
  "count_nonzero bs = int (length (filter (\<lambda>b. b) bs))"

section \<open>\<open>calculate_hamming\<close>\<close>

text \<open>
  \<open>return np.count_nonzero(B1 != B2, axis=1)\<close>: \<open>B1\<close> is a vector, \<open>B2\<close> a matrix given
  as the list of its rows; the result has one count per row.
\<close>

fun calculate_hamming :: "bool list \<Rightarrow> bool list list \<Rightarrow> error + int list" where
  "calculate_hamming B1 [] = Inr []"
| "calculate_hamming B1 (row # rows) =
     (case not_equal_row B1 row of
        Inl e \<Rightarrow> Inl e
      | Inr ne \<Rightarrow> (case calculate_hamming B1 rows of
                     Inl e \<Rightarrow> Inl e
                   | Inr cs \<Rightarrow> Inr (count_nonzero ne # cs)))"

section \<open>Collections and the embedding model\<close>

definition ident :: "dataset_item \<Rightarrow> string \<times> string" where
  "ident item = (item_id item, subset item)"

text \<open>
  Modelled from the spec: \<open>Dataset.put\<close> and \<open>Dataset.update\<close> (class of
  \<open>datumaro.components.dataset\<close>), the "bulk merge-by-item-identity update" of a
  collection iterated in a deterministic order. An item whose identity is present replaces
  the stored one in place; a new identity is added at the end.
\<close>

definition put :: "dataset \<Rightarrow> dataset_item \<Rightarrow> dataset" where
  "put d item =
     (if ident item \<in> ident ` set d
      then map (\<lambda>y. if ident y = ident item then item else y) d
      else d @ [item])"

definition update :: "dataset \<Rightarrow> dataset \<Rightarrow> dataset" where
  "update d items = foldl put d items"

text \<open>
  Modelled from the spec: \<open>ExplorerLauncher\<close> (class of \<open>datumaro.plugins.explorer\<close>),
  the Embedder boundary \<open>embed_item(item) -> Fingerprint | NoFingerprint\<close> and
  \<open>embed_text(text) -> Fingerprint\<close>. \<open>None\<close> is "no fingerprint"; the object that comes
  back is checked with \<open>isinstance(query_key, HashKey)\<close> by the caller, so it is any
  annotation here. The embedder is a function: an exception raised inside the model
  would pass through the explorer unchanged and is not part of this development.
\<close>

record embedder =
  infer_item :: "dataset_item \<Rightarrow> annotation option"
  infer_text :: "string \<Rightarrow> annotation option"

text \<open>
  Modelled from the spec: \<open>Dataset.run_model(model, append_annotation=True)\<close>, which
  invokes the embedder for each item and attaches the resulting fingerprint as a new
  annotation.
\<close>

definition run_model :: "embedder \<Rightarrow> dataset \<Rightarrow> dataset" where
  "run_model emb d =
     map (\<lambda>item. item\<lparr>annotations := annotations item @
                          (case infer_item emb item of None \<Rightarrow> [] | Some a \<Rightarrow> [a])\<rparr>) d"

section \<open>\<open>select_uninferenced_dataset\<close>\<close>

definition select_uninferenced_dataset :: "dataset \<Rightarrow> dataset" where
  "select_uninferenced_dataset d =
     foldl (\<lambda>uninferenced item.
              if \<not> list_ex is_HashKey (annotations item) then put uninferenced item
              else uninferenced) [] d"

section \<open>The \<open>Explorer\<close> class\<close>

text \<open>
  The fields of an \<open>Explorer\<close> object. \<open>_model\<close> and \<open>_text_model\<close> start as \<open>None\<close> and
  are filled by the properties \<open>model\<close> and \<open>text_model\<close> on first use; the two flags say
  whether they are filled. \<open>topk_default\<close> is \<open>_topk\<close>, \<open>database_keys\<close> the stacked matrix
  \<open>_database_keys\<close> as the list of its rows, \<open>item_list\<close> is \<open>_item_list\<close>.
\<close>

record explorer =
  model_loaded :: bool
  text_model_loaded :: bool
  topk_default :: int
  database_keys :: "bool list list"
  item_list :: "dataset_item list"

text \<open>
  \<open>compute_hash_key\<close>: the first loop reads \<open>self.model\<close> (which loads the model) for every
  collection to infer that is not empty; the second merges each inferred collection back.
  The result is the flag of \<open>_model\<close> and the updated collections.
\<close>

definition compute_hash_key :: "embedder \<Rightarrow> dataset list \<Rightarrow> dataset list \<Rightarrow> bool \<times> dataset list" where
  "compute_hash_key emb datasets datasets_to_infer =
     (let loaded = list_ex (\<lambda>d. length d > 0) datasets_to_infer;
          inferred = map (\<lambda>d. if length d > 0 then run_model emb d else d) datasets_to_infer
      in (loaded, map (\<lambda>(d, d_inf). update d d_inf) (zip datasets inferred)))"

text \<open>
  The three nested loops of \<open>__init__\<close>. Each \<open>HashKey\<close> annotation whose key unpacks adds
  one row and one reference to its item; an exception in the \<open>try\<close> block skips the
  annotation.
\<close>

fun walk_annotations :: "dataset_item \<Rightarrow> annotation list \<Rightarrow> (bool list \<times> dataset_item) list" where
  "walk_annotations item [] = []"
| "walk_annotations item (a # as) =
     (if is_HashKey a
      then (case unpackbits (hash_key a) of
              Inr bits \<Rightarrow> (bits, item) # walk_annotations item as
            | Inl e \<Rightarrow> walk_annotations item as)
      else walk_annotations item as)"

definition walk_item :: "dataset_item \<Rightarrow> (bool list \<times> dataset_item) list" where
  "walk_item item = walk_annotations item (annotations item)"

definition walk_datasets :: "dataset list \<Rightarrow> (bool list \<times> dataset_item) list" where
  "walk_datasets datasets = concat (map (\<lambda>d. concat (map walk_item d)) datasets)"

text \<open>\<open>i is None\<close> for a row of bits: an array is never \<open>None\<close>.\<close>

definition is_None :: "bool list \<Rightarrow> bool" where
  "is_None row = False"

text \<open>\<open>np.stack(arrays, axis=0)\<close>: the arrays must have one shape.\<close>

definition np_stack :: "bool list list \<Rightarrow> error + bool list list" where
  "np_stack rows =
     (case rows of
        [] \<Rightarrow> Inl ValueError_stack
      | r # rs \<Rightarrow> if list_all (\<lambda>x. length x = length r) rs then Inr rows
                  else Inl ValueError_stack)"

definition Explorer_init :: "embedder \<Rightarrow> dataset list \<Rightarrow> int \<Rightarrow> error + explorer" where
  "Explorer_init emb datasets topk =
     (let datasets_to_infer = map select_uninferenced_dataset datasets;
          (loaded, datasets') = compute_hash_key emb datasets datasets_to_infer;
          collected = walk_datasets datasets';
          keys = map fst collected;
          items = map snd collected
      in if list_all is_None keys then Inl ValueError_database
         else (case np_stack keys of
                 Inl e \<Rightarrow> Inl e
               | Inr matrix \<Rightarrow>
                   Inr \<lparr>model_loaded = loaded, text_model_loaded = False,
                        topk_default = topk, database_keys = matrix, item_list = items\<rparr>))"

subsection \<open>Queries\<close>

datatype query = ItemQuery dataset_item | TextQuery string | OtherQuery

text \<open>
  \<open>_get_hash_key_from_item_query\<close>. The last line reads the field \<open>_model\<close>, not the
  property \<open>model\<close>: with \<open>_model\<close> still \<open>None\<close> it raises.
\<close>

definition get_hash_key_from_item_query ::
    "embedder \<Rightarrow> explorer \<Rightarrow> dataset_item \<Rightarrow> error + annotation option" where
  "get_hash_key_from_item_query emb self q =
     (let query_keys_in_item = filter is_HashKey (annotations q)
      in if length query_keys_in_item > 1 then Inl DatumaroError_ambiguous
         else if length query_keys_in_item = 1 then Inr (Some (query_keys_in_item ! 0))
         else if model_loaded self then Inr (infer_item emb q)
         else Inl AttributeError_model)"

text \<open>\<open>_get_hash_key_from_text_query\<close>: the property \<open>text_model\<close> loads the text model.\<close>

definition get_hash_key_from_text_query ::
    "embedder \<Rightarrow> explorer \<Rightarrow> string \<Rightarrow> annotation option \<times> explorer" where
  "get_hash_key_from_text_query emb self q =
     (infer_text emb q, self\<lparr>text_model_loaded := True\<rparr>)"

text \<open>
  \<open>np.argsort(logits)\<close> is called with NumPy's default sort kind, for which NumPy
  promises the indices that sort the array and no order among equal elements. The sort is
  therefore a parameter of \<open>explore_topk\<close>, and \<open>argsort_ok\<close> is what NumPy promises of it.
\<close>

definition argsort_ok :: "(int list \<Rightarrow> nat list) \<Rightarrow> bool" where
  "argsort_ok argsort \<longleftrightarrow>
     (\<forall>xs. mset (argsort xs) = mset [0..<length xs] \<and> sorted (map ((!) xs) (argsort xs)))"

text \<open>
  Two sorts that keep the promise: one leaves equal elements in the order of their
  indices, the other puts the larger index first.
\<close>

definition stable_argsort :: "int list \<Rightarrow> nat list" where
  "stable_argsort xs = sort_key ((!) xs) [0..<length xs]"

definition descending_ties_argsort :: "int list \<Rightarrow> nat list" where
  "descending_ties_argsort xs = sort_key ((!) xs) (rev [0..<length xs])"

text \<open>\<open>np.array(self._item_list)[ind]\<close>: indexing with an array of indices.\<close>

definition np_take :: "'a list \<Rightarrow> nat list \<Rightarrow> error + 'a list" where
  "np_take xs ind =
     (if list_all (\<lambda>i. i < length xs) ind then Inr (map ((!) xs) ind) else Inl IndexError)"

text \<open>Python's \<open>xs[:k]\<close>: a negative \<open>k\<close> counts from the end.\<close>

definition slice_to :: "'a list \<Rightarrow> int \<Rightarrow> 'a list" where
  "slice_to xs k = (if 0 \<le> k then take (nat k) xs else take (length xs - nat (- k)) xs)"

text \<open>
  The branch on the type of the query (lines 111 to 119): the key found for the query,
  or the exception, together with the object after the call.
\<close>

definition resolve_query_key ::
    "embedder \<Rightarrow> explorer \<Rightarrow> query \<Rightarrow> (error + annotation option) \<times> explorer" where
  "resolve_query_key emb self q =
     (case q of
        ItemQuery item \<Rightarrow> (get_hash_key_from_item_query emb self item, self)
      | TextQuery s \<Rightarrow> (case get_hash_key_from_text_query emb self s of
                          (k, self') \<Rightarrow> (Inr k, self'))
      | OtherQuery \<Rightarrow> (Inl MediaTypeError, self))"

text \<open>
  \<open>explore_topk\<close>. \<open>not topk\<close> holds for \<open>None\<close> and for \<open>0\<close>. The result is the returned
  list or the exception, and the object after the call.
\<close>

definition explore_topk ::
    "embedder \<Rightarrow> (int list \<Rightarrow> nat list) \<Rightarrow> explorer \<Rightarrow> query \<Rightarrow> int option
       \<Rightarrow> (error + dataset_item list) \<times> explorer" where
  "explore_topk emb argsort self q topk_arg =
     (let topk = (case topk_arg of None \<Rightarrow> topk_default self
                  | Some k \<Rightarrow> if k = 0 then topk_default self else k);
          keys = database_keys self
      in case resolve_query_key emb self q of
           (Inl e, self') \<Rightarrow> (Inl e, self')
         | (Inr query_key, self') \<Rightarrow>
             (case query_key of
                None \<Rightarrow> (Inl ValueError_query, self')
              | Some a \<Rightarrow>
                  if \<not> is_HashKey a then (Inl ValueError_query, self')
                  else (case unpackbits (hash_key a) of
                          Inl e \<Rightarrow> (Inl e, self')
                        | Inr unpacked_key \<Rightarrow>
                            (case calculate_hamming unpacked_key keys of
                               Inl e \<Rightarrow> (Inl e, self')
                             | Inr logits \<Rightarrow>
                                 (case np_take (item_list self') (argsort logits) of
                                    Inl e \<Rightarrow> (Inl e, self')
                                  | Inr ranked \<Rightarrow> (Inr (slice_to ranked topk), self'))))))"

section \<open>Vocabulary of the properties\<close>

text \<open>The number of positions at which two bit vectors of one length differ, as \<open>calculate_hamming\<close> counts it for one row.\<close>

definition hamming_distance :: "bool list \<Rightarrow> bool list \<Rightarrow> int" where
  "hamming_distance a b = count_nonzero (map (\<lambda>(x, y). x \<noteq> y) (zip a b))"

text \<open>
  What holds of every object that \<open>__init__\<close> returns (lemma \<open>Explorer_init_ready\<close>): the
  matrix has at least one row, one item per row, and rows of one length.
\<close>

definition ready :: "explorer \<Rightarrow> bool" where
  "ready self \<longleftrightarrow>
     database_keys self \<noteq> []
     \<and> length (item_list self) = length (database_keys self)
     \<and> list_all (\<lambda>r. length r = length (hd (database_keys self))) (database_keys self)"

text \<open>
  The bits of the query's key as \<open>explore_topk\<close> computes them before it calls
  \<open>calculate_hamming\<close> (lines 111 to 125), or the exception raised on the way.
\<close>

definition query_bits :: "embedder \<Rightarrow> explorer \<Rightarrow> query \<Rightarrow> error + bool list" where
  "query_bits emb self q =
     (case fst (resolve_query_key emb self q) of
        Inl e \<Rightarrow> Inl e
      | Inr None \<Rightarrow> Inl ValueError_query
      | Inr (Some a) \<Rightarrow> if is_HashKey a then unpackbits (hash_key a) else Inl ValueError_query)"

text \<open>A query is resolvable on an index when its key is found and has as many bits as the rows.\<close>

definition resolvable :: "embedder \<Rightarrow> explorer \<Rightarrow> query \<Rightarrow> bool" where
  "resolvable emb self q \<longleftrightarrow>
     (case query_bits emb self q of
        Inl e \<Rightarrow> False
      | Inr bits \<Rightarrow> length bits = length (hd (database_keys self)))"

text \<open>The value of \<open>topk\<close> after \<open>if not topk: topk = self._topk\<close>.\<close>

definition effective_topk :: "explorer \<Rightarrow> int option \<Rightarrow> int" where
  "effective_topk self topk_arg =
     (case topk_arg of None \<Rightarrow> topk_default self
      | Some k \<Rightarrow> if k = 0 then topk_default self else k)"

text \<open>The row indices in the order \<open>np.argsort\<close> gives them for the query bits: \<open>ind\<close>.\<close>

definition ranking :: "(int list \<Rightarrow> nat list) \<Rightarrow> explorer \<Rightarrow> bool list \<Rightarrow> nat list" where
  "ranking argsort self bits = argsort (map (hamming_distance bits) (database_keys self))"

text \<open>
  The pairs of row and item that the loops of \<open>__init__\<close> have appended when they end,
  after \<open>select_uninferenced_dataset\<close> and \<open>compute_hash_key\<close>.
\<close>

definition collected_rows :: "embedder \<Rightarrow> dataset list \<Rightarrow> (bool list \<times> dataset_item) list" where
  "collected_rows emb datasets =
     walk_datasets (snd (compute_hash_key emb datasets (map select_uninferenced_dataset datasets)))"

text \<open>
  The data model gives every fingerprint one length: a \<open>HashKey\<close> array of bytes has \<open>n\<close>
  bytes, both on the items of the collections and when it comes from the embedder. (An
  array that is not of bytes does not unpack and is skipped by \<open>__init__\<close>.)
\<close>

definition key_length_ok :: "nat \<Rightarrow> annotation \<Rightarrow> bool" where
  "key_length_ok n a = (case a of HashKey (UInt8 bs) \<Rightarrow> length bs = n | _ \<Rightarrow> True)"

definition fixed_length_keys :: "nat \<Rightarrow> embedder \<Rightarrow> dataset list \<Rightarrow> bool" where
  "fixed_length_keys n emb datasets \<longleftrightarrow>
     (\<forall>d \<in> set datasets. \<forall>item \<in> set d. \<forall>a \<in> set (annotations item). key_length_ok n a)
     \<and> (\<forall>item a. infer_item emb item = Some a \<longrightarrow> key_length_ok n a)"

section \<open>Example data\<close>

text \<open>An embedder that always answers with a key, and one that never does.\<close>

definition example_embedder :: embedder where
  "example_embedder = \<lparr>infer_item = (\<lambda>item. Some (HashKey (UInt8 [15]))),
                        infer_text = (\<lambda>s. Some (HashKey (UInt8 [1])))\<rparr>"

definition silent_embedder :: embedder where
  "silent_embedder = \<lparr>infer_item = (\<lambda>item. None), infer_text = (\<lambda>s. None)\<rparr>"

text \<open>Three items with the keys \<open>00000000\<close>, \<open>00000011\<close> and \<open>11111111\<close>.\<close>

definition item_a :: dataset_item where
  "item_a = \<lparr>item_id = ''a'', subset = ''train'', annotations = [HashKey (UInt8 [0])]\<rparr>"

definition item_b :: dataset_item where
  "item_b = \<lparr>item_id = ''b'', subset = ''train'',
             annotations = [OtherAnnotation 7, HashKey (UInt8 [3])]\<rparr>"

definition item_c :: dataset_item where
  "item_c = \<lparr>item_id = ''c'', subset = ''train'', annotations = [HashKey (UInt8 [255])]\<rparr>"

text \<open>An item with two keys and one with no key.\<close>

definition item_d :: dataset_item where
  "item_d = \<lparr>item_id = ''d'', subset = ''train'',
             annotations = [HashKey (UInt8 [15]), OtherAnnotation 1, HashKey (UInt8 [240])]\<rparr>"

definition item_n :: dataset_item where
  "item_n = \<lparr>item_id = ''n'', subset = ''train'', annotations = [OtherAnnotation 2]\<rparr>"

text \<open>Two query items, with the keys \<open>00000001\<close> and \<open>00000011\<close>.\<close>

definition item_q :: dataset_item where
  "item_q = \<lparr>item_id = ''q'', subset = ''query'', annotations = [HashKey (UInt8 [1])]\<rparr>"

definition item_r :: dataset_item where
  "item_r = \<lparr>item_id = ''r'', subset = ''query'', annotations = [HashKey (UInt8 [3])]\<rparr>"

text \<open>The object that \<open>Explorer(dataset, topk=10)\<close> builds for the collection of \<open>item_a\<close>, \<open>item_b\<close>, \<open>item_c\<close>.\<close>

definition example_explorer :: explorer where
  "example_explorer =
     \<lparr>model_loaded = False, text_model_loaded = False, topk_default = 10,
      database_keys = [[False, False, False, False, False, False, False, False],
                       [False, False, False, False, False, False, True, True],
                       [True, True, True, True, True, True, True, True]],
      item_list = [item_a, item_b, item_c]\<rparr>"

text \<open>
  Two items that carry the key of the query \<open>item_q\<close>, and the object built for the
  collection of \<open>item_a\<close>, \<open>item_b\<close>, \<open>item_f\<close>, \<open>item_g\<close>: the distances to \<open>item_q\<close> are
  1, 1, 0, 0.
\<close>

definition item_f :: dataset_item where
  "item_f = \<lparr>item_id = ''f'', subset = ''train'', annotations = [HashKey (UInt8 [1])]\<rparr>"

definition item_g :: dataset_item where
  "item_g = \<lparr>item_id = ''g'', subset = ''train'', annotations = [HashKey (UInt8 [1])]\<rparr>"

definition example_explorer_ties :: explorer where
  "example_explorer_ties =
     \<lparr>model_loaded = False, text_model_loaded = False, topk_default = 10,
      database_keys = [[False, False, False, False, False, False, False, False],
                       [False, False, False, False, False, False, True, True],
                       [False, False, False, False, False, False, False, True],
                       [False, False, False, False, False, False, False, True]],
      item_list = [item_a, item_b, item_f, item_g]\<rparr>"

text \<open>The object built for the collection of \<open>item_n\<close> (which gets the key \<open>00001111\<close>) and \<open>item_d\<close>.\<close>

definition item_n_inferred :: dataset_item where
  "item_n_inferred = \<lparr>item_id = ''n'', subset = ''train'',
                       annotations = [OtherAnnotation 2, HashKey (UInt8 [15])]\<rparr>"

definition example_explorer_d :: explorer where
  "example_explorer_d =
     \<lparr>model_loaded = True, text_model_loaded = False, topk_default = 10,
      database_keys = [[False, False, False, False, True, True, True, True],
                       [False, False, False, False, True, True, True, True],
                       [True, True, True, True, False, False, False, False]],
      item_list = [item_n_inferred, item_d, item_d]\<rparr>"

section \<open>Properties of \<open>calculate_hamming\<close>\<close>

lemma count_nonzero_zip:
  assumes "length A = length B"
  shows "count_nonzero (map (\<lambda>(x, y). x \<noteq> y) (zip A B))
           = int (card {i. i < length A \<and> A ! i \<noteq> B ! i})"
proof -
  have "length (filter (\<lambda>b. b) (map (\<lambda>(x, y). x \<noteq> y) (zip A B)))
          = card {i. i < length (zip A B) \<and> (map (\<lambda>(x, y). x \<noteq> y) (zip A B)) ! i}"
    by (simp add: length_filter_conv_card)
  also have "{i. i < length (zip A B) \<and> (map (\<lambda>(x, y). x \<noteq> y) (zip A B)) ! i}
          = {i. i < length A \<and> A ! i \<noteq> B ! i}"
    using assms by auto
  finally show ?thesis by (simp add: count_nonzero_def)
qed

lemma calculate_hamming_nonneg:
  "calculate_hamming b M = Inr ds \<Longrightarrow> d \<in> set ds \<Longrightarrow> 0 \<le> d"
  by (induction M arbitrary: ds) (auto simp: count_nonzero_def split: sum.splits)

lemma calculate_hamming_rows:
  "list_all (\<lambda>r. length r = length b) M
     \<Longrightarrow> calculate_hamming b M = Inr (map (hamming_distance b) M)"
  by (induction M) (auto simp: not_equal_row_def hamming_distance_def)

lemma hamming_distance_self: "hamming_distance a a = 0"
  by (auto simp: hamming_distance_def count_nonzero_def filter_empty_conv in_set_zip)

lemma hamming_distance_nonneg: "0 \<le> hamming_distance a b"
  by (simp add: hamming_distance_def count_nonzero_def)

text \<open>
  Claim C8. For two bit vectors \<open>A\<close> and \<open>B\<close> of the same length \<open>N\<close>,
  \<open>calculate_hamming A [B]\<close> returns a vector with one entry, the number of positions at
  which \<open>A\<close> and \<open>B\<close> differ; \<open>calculate_hamming A [A]\<close> is \<open>[0]\<close>; and every distance
  that \<open>calculate_hamming\<close> returns is a non-negative integer.
\<close>

theorem calculate_hamming_correct:
  assumes "length A = N" and "length B = N"
  shows "calculate_hamming A [B] = Inr [int (card {i. i < N \<and> A ! i \<noteq> B ! i})]
         \<and> calculate_hamming A [A] = Inr [0]
         \<and> (\<forall>M ds d. calculate_hamming A M = Inr ds \<longrightarrow> d \<in> set ds \<longrightarrow> 0 \<le> d)"
proof -
  have eq: "length A = length B" using assms by simp
  have 1: "calculate_hamming A [B] = Inr [int (card {i. i < N \<and> A ! i \<noteq> B ! i})]"
    using count_nonzero_zip [OF eq] assms by (simp add: not_equal_row_def)
  have 2: "calculate_hamming A [A] = Inr [0]"
    using count_nonzero_zip [of A A] by (simp add: not_equal_row_def)
  have 3: "\<forall>M ds d. calculate_hamming A M = Inr ds \<longrightarrow> d \<in> set ds \<longrightarrow> 0 \<le> d"
    using calculate_hamming_nonneg by blast
  show ?thesis using 1 2 3 by blast
qed

theorem calculate_hamming_correct_witness:
  "length [True, False, True] = (3::nat) \<and> length [True, True, False] = (3::nat)
   \<and> calculate_hamming [True, False, True] [[True, True, False]] = Inr [2]
   \<and> calculate_hamming [True, False, True] [[True, False, True]] = Inr [0]"
proof -
  have c: "card {i. i < (3::nat) \<and> [True, False, True] ! i \<noteq> [True, True, False] ! i} = 2"
  proof -
    have "{i. i < (3::nat) \<and> [True, False, True] ! i \<noteq> [True, True, False] ! i} = {1, 2}"
      by (auto simp: nth_Cons' less_Suc_eq numeral_3_eq_3)
    then show ?thesis by simp
  qed
  show ?thesis
    using calculate_hamming_correct [of "[True, False, True]" 3 "[True, True, False]"] c
    by simp
qed

section \<open>The sort\<close>

lemma stable_argsort_ok: "argsort_ok stable_argsort"
  by (simp add: argsort_ok_def stable_argsort_def)

lemma descending_ties_argsort_ok: "argsort_ok descending_ties_argsort"
  by (simp add: argsort_ok_def descending_ties_argsort_def)

lemma argsort_ok_set: "argsort_ok argsort \<Longrightarrow> set (argsort xs) = {0..<length xs}"
  by (metis argsort_ok_def set_mset_mset set_upt)

lemma argsort_ok_length: "argsort_ok argsort \<Longrightarrow> length (argsort xs) = length xs"
  by (metis argsort_ok_def size_mset length_upt diff_zero)

lemma argsort_ok_sorted: "argsort_ok argsort \<Longrightarrow> sorted (map ((!) xs) (argsort xs))"
  by (simp add: argsort_ok_def)

text \<open>Without ties the promise of \<open>np.argsort\<close> leaves one answer only.\<close>

lemma argsort_unique_without_ties:
  assumes "argsort_ok f" and "argsort_ok g" and "distinct xs"
  shows "f xs = g xs"
proof -
  have inj: "inj_on ((!) xs) {0..<length xs}"
    using assms(3) by (simp add: inj_on_nth)
  have sf: "set (f xs) = {0..<length xs}" and sg: "set (g xs) = {0..<length xs}"
    using argsort_ok_set assms(1,2) by blast+
  have df: "distinct (f xs)" and dg: "distinct (g xs)"
    using assms(1,2) by (metis argsort_ok_def distinct_upt mset_eq_imp_distinct_iff)+
  have d1: "distinct (map ((!) xs) (f xs))" and d2: "distinct (map ((!) xs) (g xs))"
    using df dg sf sg inj by (simp_all add: distinct_map)
  have s1: "sorted (map ((!) xs) (f xs))" and s2: "sorted (map ((!) xs) (g xs))"
    using assms(1,2) by (simp_all add: argsort_ok_sorted)
  have e: "set (map ((!) xs) (f xs)) = set (map ((!) xs) (g xs))"
    using sf sg by simp
  have m: "map ((!) xs) (f xs) = map ((!) xs) (g xs)"
    using s1 d1 s2 d2 e by (rule sorted_distinct_set_unique)
  have "inj_on ((!) xs) (set (f xs) \<union> set (g xs))"
    using inj sf sg by simp
  then show ?thesis using m by (simp add: inj_on_map_eq_map)
qed

lemma ranking_mset:
  "argsort_ok argsort
     \<Longrightarrow> mset (ranking argsort self bits) = mset [0..<length (database_keys self)]"
  unfolding ranking_def argsort_ok_def by (metis length_map)

section \<open>Construction\<close>

lemma list_all_is_None: "list_all is_None keys \<longleftrightarrow> keys = []"
  by (cases keys) (simp_all add: is_None_def)

text \<open>The three ways \<open>__init__\<close> ends, in terms of the rows its loops collected.\<close>

lemma Explorer_init_cases:
  "Explorer_init emb datasets topk =
     (if collected_rows emb datasets = [] then Inl ValueError_database
      else if list_all (\<lambda>r. length r = length (hd (map fst (collected_rows emb datasets))))
                (map fst (collected_rows emb datasets))
      then Inr \<lparr>model_loaded = list_ex (\<lambda>d. length d > 0) (map select_uninferenced_dataset datasets),
                text_model_loaded = False, topk_default = topk,
                database_keys = map fst (collected_rows emb datasets),
                item_list = map snd (collected_rows emb datasets)\<rparr>
      else Inl ValueError_stack)"
proof -
  obtain loaded ds' where
    c: "compute_hash_key emb datasets (map select_uninferenced_dataset datasets) = (loaded, ds')"
    by (cases "compute_hash_key emb datasets (map select_uninferenced_dataset datasets)")
  then have l: "loaded = list_ex (\<lambda>d. length d > 0) (map select_uninferenced_dataset datasets)"
    by (simp add: compute_hash_key_def Let_def)
  have r: "collected_rows emb datasets = walk_datasets ds'"
    using c by (simp add: collected_rows_def)
  show ?thesis
  proof (cases "walk_datasets ds'")
    case Nil
    then show ?thesis
      using c r by (simp add: Explorer_init_def list_all_is_None)
  next
    case (Cons x xs)
    then show ?thesis
      using c r l by (simp add: Explorer_init_def is_None_def np_stack_def)
  qed
qed


subsection \<open>The examples, evaluated\<close>

lemmas init_eval = Explorer_init_def compute_hash_key_def select_uninferenced_dataset_def
  put_def update_def run_model_def walk_datasets_def walk_item_def unpackbits_def byte_bits_def
  np_stack_def is_None_def ident_def upt_conv_Cons collected_rows_def

lemma example_init:
  "Explorer_init example_embedder [[item_a, item_b, item_c]] 10 = Inr example_explorer"
  by (simp add: init_eval item_a_def item_b_def item_c_def example_explorer_def)

lemma example_init_d:
  "Explorer_init example_embedder [[item_n, item_d]] 10 = Inr example_explorer_d"
  by (simp add: init_eval item_n_def item_d_def item_n_inferred_def example_explorer_d_def
        example_embedder_def)

lemma example_rows_d:
  "collected_rows example_embedder [[item_n, item_d]]
     = [([False, False, False, False, True, True, True, True], item_n_inferred),
        ([False, False, False, False, True, True, True, True], item_d),
        ([True, True, True, True, False, False, False, False], item_d)]"
  by (simp add: init_eval item_n_def item_d_def item_n_inferred_def example_embedder_def)

lemma example_rows_silent: "collected_rows silent_embedder [[item_n]] = []"
  by (simp add: init_eval item_n_def silent_embedder_def)

lemma example_ready: "ready example_explorer"
  by (simp add: ready_def example_explorer_def)


subsection \<open>Keys of one length\<close>

lemma length_unpacked: "length (concat (map byte_bits bs)) = 8 * length bs"
  by (induction bs) (simp_all add: byte_bits_def)

lemma walk_annotations_row:
  "(bits, x) \<in> set (walk_annotations item as)
     \<Longrightarrow> \<exists>bs. HashKey (UInt8 bs) \<in> set as \<and> bits = concat (map byte_bits bs)"
proof (induction as)
  case Nil
  then show ?case by simp
next
  case (Cons a as)
  then show ?case
    by (cases a; cases "hash_key a") (auto simp: unpackbits_def)
qed

lemma set_put: "set (put u x) \<subseteq> insert x (set u)"
  by (auto simp: put_def)

lemma set_update: "set (update d items) \<subseteq> set d \<union> set items"
  unfolding update_def
proof (induction items arbitrary: d)
  case Nil
  then show ?case by simp
next
  case (Cons y items)
  show ?case
    using Cons.IH [of "put d y"] set_put [of d y] by auto
qed

lemma select_uninferenced_foldl:
  "set (foldl (\<lambda>uninferenced item.
              if \<not> list_ex is_HashKey (annotations item) then put uninferenced item
              else uninferenced) u d)
     \<subseteq> set u \<union> {x \<in> set d. \<not> list_ex is_HashKey (annotations x)}"
proof (induction d arbitrary: u)
  case Nil
  then show ?case by simp
next
  case (Cons y d)
  show ?case
    using Cons.IH [of "put u y"] Cons.IH [of u] set_put [of u y] by auto
qed

lemma select_uninferenced_subset:
  "x \<in> set (select_uninferenced_dataset d)
     \<Longrightarrow> x \<in> set d \<and> \<not> list_ex is_HashKey (annotations x)"
  using select_uninferenced_foldl [of "[]" d] by (auto simp: select_uninferenced_dataset_def)

text \<open>Every collection after the merge is the update of an input collection by what was inferred for it.\<close>

lemma merged_dataset:
  assumes "d' \<in> set (snd (compute_hash_key emb datasets
                             (map select_uninferenced_dataset datasets)))"
  shows "\<exists>d \<in> set datasets.
           d' = update d (if length (select_uninferenced_dataset d) > 0
                          then run_model emb (select_uninferenced_dataset d)
                          else select_uninferenced_dataset d)"
proof -
  let ?merged = "snd (compute_hash_key emb datasets (map select_uninferenced_dataset datasets))"
  have len: "length ?merged = length datasets"
    by (simp add: compute_hash_key_def Let_def)
  obtain i where i: "i < length datasets" "?merged ! i = d'"
    using assms len by (metis in_set_conv_nth)
  have "?merged ! i = update (datasets ! i)
           (if length (select_uninferenced_dataset (datasets ! i)) > 0
            then run_model emb (select_uninferenced_dataset (datasets ! i))
            else select_uninferenced_dataset (datasets ! i))"
    using i(1) by (simp add: compute_hash_key_def Let_def)
  then show ?thesis using i by (metis nth_mem)
qed

lemma merged_annotations:
  assumes fixed: "fixed_length_keys n emb datasets"
    and d': "d' \<in> set (snd (compute_hash_key emb datasets
                               (map select_uninferenced_dataset datasets)))"
    and x: "x \<in> set d'" and a: "a \<in> set (annotations x)"
  shows "key_length_ok n a"
proof -
  obtain d where d: "d \<in> set datasets"
    and upd: "d' = update d (if length (select_uninferenced_dataset d) > 0
                             then run_model emb (select_uninferenced_dataset d)
                             else select_uninferenced_dataset d)"
    using merged_dataset [OF d'] by blast
  have orig: "\<And>y b. y \<in> set d \<Longrightarrow> b \<in> set (annotations y) \<Longrightarrow> key_length_ok n b"
    using fixed d by (auto simp: fixed_length_keys_def)
  have inf: "\<And>y b. infer_item emb y = Some b \<Longrightarrow> key_length_ok n b"
    using fixed by (auto simp: fixed_length_keys_def)
  consider "x \<in> set d" | "x \<in> set (select_uninferenced_dataset d)"
    | "x \<in> set (run_model emb (select_uninferenced_dataset d))"
    using x upd set_update by (fastforce split: if_splits)
  then show ?thesis
  proof cases
    case 1
    then show ?thesis using orig a by blast
  next
    case 2
    then show ?thesis using orig a select_uninferenced_subset by blast
  next
    case 3
    then obtain y where y: "y \<in> set (select_uninferenced_dataset d)"
      and xy: "x = y\<lparr>annotations := annotations y @
                          (case infer_item emb y of None \<Rightarrow> [] | Some b \<Rightarrow> [b])\<rparr>"
      by (auto simp: run_model_def)
    have yd: "y \<in> set d" using y select_uninferenced_subset by blast
    from a xy have "a \<in> set (annotations y) \<or> infer_item emb y = Some a"
      by (auto split: option.splits)
    then show ?thesis using orig [OF yd] inf by blast
  qed
qed

lemma collected_rows_length:
  assumes "fixed_length_keys n emb datasets" and "r \<in> set (collected_rows emb datasets)"
  shows "length (fst r) = 8 * n"
proof -
  from assms(2) obtain d' x where d': "d' \<in> set (snd (compute_hash_key emb datasets
                               (map select_uninferenced_dataset datasets)))"
    and x: "x \<in> set d'" and r: "r \<in> set (walk_item x)"
    by (auto simp: collected_rows_def walk_datasets_def)
  obtain bits y where ry: "r = (bits, y)" by (cases r)
  then obtain bs where bs: "HashKey (UInt8 bs) \<in> set (annotations x)"
      "bits = concat (map byte_bits bs)"
    using r walk_annotations_row [of bits y x "annotations x"] by (auto simp: walk_item_def)
  have "key_length_ok n (HashKey (UInt8 bs))"
    using merged_annotations [OF assms(1) d' x bs(1)] .
  then have "length bs = n" by (simp add: key_length_ok_def)
  then show ?thesis using ry bs(2) by (simp add: length_unpacked)
qed

text \<open>
  Claim C4. With fingerprints of one length, as the data model has them, \<open>__init__\<close>
  raises "Database should have hash_key" if and only if its loops, after
  \<open>select_uninferenced_dataset\<close>, inference and the merge, have collected no row; and if
  they have collected at least one row it returns a ready object, whose matrix and item
  list are the collected rows.
\<close>

theorem Explorer_init_empty_iff:
  assumes "fixed_length_keys n emb datasets"
  shows "(Explorer_init emb datasets topk = Inl ValueError_database
            \<longleftrightarrow> collected_rows emb datasets = [])
         \<and> (collected_rows emb datasets \<noteq> []
              \<longrightarrow> (\<exists>self. Explorer_init emb datasets topk = Inr self \<and> ready self
                        \<and> database_keys self = map fst (collected_rows emb datasets)
                        \<and> item_list self = map snd (collected_rows emb datasets)))"
proof (cases "collected_rows emb datasets")
  case Nil
  then show ?thesis by (simp add: Explorer_init_cases)
next
  case (Cons r rs)
  have "list_all (\<lambda>k. length k = length (hd (map fst (collected_rows emb datasets))))
          (map fst (collected_rows emb datasets))"
    using collected_rows_length [OF assms] Cons by (auto simp: list_all_iff)
  then show ?thesis
    using Cons by (auto simp: Explorer_init_cases ready_def)
qed

lemma example_fixed_length: "fixed_length_keys 1 example_embedder [[item_n, item_d]]"
  by (simp add: fixed_length_keys_def key_length_ok_def example_embedder_def item_n_def
        item_d_def)

lemma example_fixed_length_silent: "fixed_length_keys 1 silent_embedder [[item_n]]"
  by (simp add: fixed_length_keys_def key_length_ok_def silent_embedder_def item_n_def)

theorem Explorer_init_empty_iff_witness:
  "fixed_length_keys 1 silent_embedder [[item_n]]
   \<and> collected_rows silent_embedder [[item_n]] = []
   \<and> Explorer_init silent_embedder [[item_n]] 10 = Inl ValueError_database
   \<and> fixed_length_keys 1 example_embedder [[item_n, item_d]]
   \<and> collected_rows example_embedder [[item_n, item_d]] \<noteq> []
   \<and> (\<exists>self. Explorer_init example_embedder [[item_n, item_d]] 10 = Inr self \<and> ready self
          \<and> length (database_keys self) = 3)"
proof -
  have 1: "Explorer_init silent_embedder [[item_n]] 10 = Inl ValueError_database"
    using Explorer_init_empty_iff [OF example_fixed_length_silent, of 10] example_rows_silent
    by simp
  have 2: "\<exists>self. Explorer_init example_embedder [[item_n, item_d]] 10 = Inr self \<and> ready self
          \<and> length (database_keys self) = 3"
    using Explorer_init_empty_iff [OF example_fixed_length, of 10]
    by (auto simp: example_rows_d)
  show ?thesis
    using 1 2 example_fixed_length example_fixed_length_silent
    by (simp add: example_rows_silent example_rows_d)
qed

section \<open>Items with several keys\<close>

text \<open>
  Claim C1, as the code has it. An item with more than one \<open>HashKey\<close> annotation, passed
  as the query, makes \<open>explore_topk\<close> raise the ambiguity error, whatever the index and
  \<open>topk\<close>; no annotation is picked. Construction never raises that error, whatever the
  collections hold.
\<close>

theorem ambiguous_query_raises:
  assumes "1 < length (filter is_HashKey (annotations item))"
  shows "explore_topk emb argsort self (ItemQuery item) topk_arg
           = (Inl DatumaroError_ambiguous, self)
         \<and> Explorer_init emb datasets topk \<noteq> Inl DatumaroError_ambiguous"
  using assms
  by (simp add: explore_topk_def resolve_query_key_def get_hash_key_from_item_query_def
        Explorer_init_cases)

theorem ambiguous_query_raises_witness:
  "1 < length (filter is_HashKey (annotations item_d))
   \<and> explore_topk example_embedder stable_argsort example_explorer (ItemQuery item_d) (Some 2)
       = (Inl DatumaroError_ambiguous, example_explorer)
   \<and> Explorer_init example_embedder [[item_n, item_d]] 10 \<noteq> Inl DatumaroError_ambiguous"
proof -
  have h: "1 < length (filter is_HashKey (annotations item_d))"
    by (simp add: item_d_def)
  show ?thesis
    using h ambiguous_query_raises [OF h, of example_embedder stable_argsort example_explorer
      "Some 2" "[[item_n, item_d]]" 10]
    by simp
qed

text \<open>
  Claim C1 as worded fails for construction: the collection that holds \<open>item_d\<close>, an item
  with two \<open>HashKey\<close> annotations, is indexed without any error, \<open>item_d\<close> twice.
\<close>

theorem ambiguous_item_indexed_counterexample:
  "length (filter is_HashKey (annotations item_d)) = 2
   \<and> Explorer_init example_embedder [[item_n, item_d]] 10 = Inr example_explorer_d
   \<and> item_list example_explorer_d = [item_n_inferred, item_d, item_d]"
  by (simp add: example_init_d) (simp add: item_d_def example_explorer_d_def)













section \<open>Queries\<close>

lemma resolve_query_key_frame:
  "database_keys (snd (resolve_query_key emb self q)) = database_keys self"
  "item_list (snd (resolve_query_key emb self q)) = item_list self"
  by (auto simp: resolve_query_key_def get_hash_key_from_text_query_def split: query.splits)

lemma explore_topk_state:
  "snd (explore_topk emb argsort self q topk_arg) = snd (resolve_query_key emb self q)"
  by (simp add: explore_topk_def split: prod.splits sum.splits option.splits)

lemma resolve_item_query_state: "snd (resolve_query_key emb self (ItemQuery item)) = self"
  by (simp add: resolve_query_key_def)

lemma ranked_items_mset:
  assumes "argsort_ok argsort" and "ready self"
  shows "mset (map ((!) (item_list self)) (ranking argsort self bits)) = mset (item_list self)"
proof -
  have n: "length (database_keys self) = length (item_list self)"
    using assms(2) by (simp add: ready_def)
  have "mset (ranking argsort self bits) = mset [0..<length (item_list self)]"
    using ranking_mset [OF assms(1), of self bits] by (simp only: n)
  then have "image_mset ((!) (item_list self)) (mset (ranking argsort self bits))
               = image_mset ((!) (item_list self)) (mset [0..<length (item_list self)])"
    by (rule arg_cong)
  then have "mset (map ((!) (item_list self)) (ranking argsort self bits))
               = mset (map ((!) (item_list self)) [0..<length (item_list self)])"
    by (simp only: mset_map)
  then show ?thesis by (simp only: map_nth)
qed

text \<open>
  On a ready index and a query whose bits have the length of the rows, \<open>explore_topk\<close>
  returns the items in the order of the sort, cut by the slice.
\<close>

lemma explore_topk_ranked:
  assumes rdy: "ready self"
    and qb: "query_bits emb self q = Inr bits"
    and len: "length bits = length (hd (database_keys self))"
    and ok: "argsort_ok argsort"
  shows "explore_topk emb argsort self q topk_arg =
           (Inr (slice_to (map ((!) (item_list self)) (ranking argsort self bits))
                          (effective_topk self topk_arg)),
            snd (resolve_query_key emb self q))"
proof -
  obtain r self' where res: "resolve_query_key emb self q = (r, self')"
    by (cases "resolve_query_key emb self q")
  from qb res obtain a where r: "r = Inr (Some a)" and hk: "is_HashKey a"
    and up: "unpackbits (hash_key a) = Inr bits"
    by (auto simp: query_bits_def split: sum.splits option.splits if_splits)
  have items: "item_list self' = item_list self"
    using resolve_query_key_frame(2) [of emb self q] res by simp
  have "list_all (\<lambda>r. length r = length bits) (database_keys self)"
    using rdy len by (simp add: ready_def)
  then have ham: "calculate_hamming bits (database_keys self)
                    = Inr (map (hamming_distance bits) (database_keys self))"
    by (rule calculate_hamming_rows)
  have "set (ranking argsort self bits) = {0..<length (database_keys self)}"
    using argsort_ok_set [OF ok] by (simp add: ranking_def)
  then have take: "np_take (item_list self) (ranking argsort self bits)
                     = Inr (map ((!) (item_list self)) (ranking argsort self bits))"
    using rdy by (simp add: np_take_def ready_def list_all_iff)
  show ?thesis
    using res r hk up items ham take
    by (simp add: explore_topk_def effective_topk_def ranking_def)
qed

lemma ranking_sorted:
  assumes "argsort_ok argsort"
  shows "sorted (map (\<lambda>i. hamming_distance bits (database_keys self ! i))
                  (ranking argsort self bits))"
proof -
  let ?logits = "map (hamming_distance bits) (database_keys self)"
  have "set (ranking argsort self bits) = {0..<length (database_keys self)}"
    using argsort_ok_set [OF assms] by (simp add: ranking_def)
  then have eq: "map (\<lambda>i. hamming_distance bits (database_keys self ! i))
                   (ranking argsort self bits)
                 = map ((!) ?logits) (ranking argsort self bits)"
    by (intro map_cong) auto
  have "sorted (map ((!) ?logits) (ranking argsort self bits))"
    using argsort_ok_sorted [OF assms] by (simp add: ranking_def)
  then show ?thesis by (simp only: eq)
qed

text \<open>One \<open>HashKey\<close> on the query item: that annotation is the key, and nothing else is consulted.\<close>

lemma resolve_one_key:
  "filter is_HashKey (annotations item) = [a]
     \<Longrightarrow> resolve_query_key emb self (ItemQuery item) = (Inr (Some a), self)"
  by (simp add: resolve_query_key_def get_hash_key_from_item_query_def)

text \<open>A query whose key is not found, or does not unpack, makes \<open>explore_topk\<close> raise that exception.\<close>

lemma explore_topk_query_error:
  "query_bits emb self q = Inl e \<Longrightarrow> fst (explore_topk emb argsort self q topk_arg) = Inl e"
  by (cases "resolve_query_key emb self q")
     (auto simp: query_bits_def explore_topk_def split: sum.splits option.splits if_splits)

subsection \<open>The examples, evaluated\<close>

lemmas query_eval = query_bits_def resolve_query_key_def get_hash_key_from_item_query_def
  get_hash_key_from_text_query_def unpackbits_def byte_bits_def upt_conv_Cons

lemma example_query_bits:
  "query_bits example_embedder example_explorer (ItemQuery item_q)
     = Inr [False, False, False, False, False, False, False, True]"
  by (simp add: query_eval item_q_def)

lemma example_query_bits_r:
  "query_bits example_embedder example_explorer (ItemQuery item_r)
     = Inr [False, False, False, False, False, False, True, True]"
  by (simp add: query_eval item_r_def)

lemma example_resolvable: "resolvable example_embedder example_explorer (ItemQuery item_q)"
  by (simp add: resolvable_def example_query_bits) (simp add: example_explorer_def)

lemma example_logits:
  "calculate_hamming [False, False, False, False, False, False, False, True]
     (database_keys example_explorer) = Inr [1, 1, 7]"
  by (simp add: example_explorer_def not_equal_row_def count_nonzero_def)

lemma example_distances_r:
  "map (hamming_distance [False, False, False, False, False, False, True, True])
     (database_keys example_explorer) = [2, 0, 6]"
  by (simp add: example_explorer_def hamming_distance_def count_nonzero_def)

lemma example_ranking_r:
  "ranking stable_argsort example_explorer
     [False, False, False, False, False, False, True, True] = [1, 0, 2]"
  by (simp add: ranking_def example_distances_r stable_argsort_def upt_conv_Cons)

lemmas topk_eval = explore_topk_def resolve_query_key_def get_hash_key_from_item_query_def
  get_hash_key_from_text_query_def unpackbits_def byte_bits_def upt_conv_Cons
  np_take_def slice_to_def

lemma example_topk:
  "explore_topk example_embedder argsort example_explorer (ItemQuery item_q) topk_arg
     = (case np_take [item_a, item_b, item_c] (argsort [1, 1, 7]) of
          Inl e \<Rightarrow> (Inl e, example_explorer)
        | Inr ranked \<Rightarrow> (Inr (slice_to ranked (effective_topk example_explorer topk_arg)),
                         example_explorer))"
proof -
  have "unpackbits (hash_key (HashKey (UInt8 [1])))
          = Inr [False, False, False, False, False, False, False, True]"
    by (simp add: unpackbits_def byte_bits_def upt_conv_Cons)
  moreover have "item_list example_explorer = [item_a, item_b, item_c]"
    by (simp add: example_explorer_def)
  ultimately show ?thesis
    using example_logits
    by (simp add: explore_topk_def resolve_query_key_def get_hash_key_from_item_query_def
          item_q_def effective_topk_def split: sum.splits)
qed

lemma example_stable_sort: "stable_argsort [1, 1, 7] = [0, 1, 2]"
  by (simp add: stable_argsort_def upt_conv_Cons)

lemma example_resolvable_r: "resolvable example_embedder example_explorer (ItemQuery item_r)"
  by (simp add: resolvable_def example_query_bits_r) (simp add: example_explorer_def)

lemma example_topk_r:
  "fst (explore_topk example_embedder stable_argsort example_explorer (ItemQuery item_r) (Some 5))
     = Inr [item_b, item_a, item_c]"
  by (simp add: topk_eval stable_argsort_def item_r_def example_explorer_def
        not_equal_row_def count_nonzero_def)

lemma example_init_ties:
  "Explorer_init example_embedder [[item_a, item_b, item_f, item_g]] 10
     = Inr example_explorer_ties"
  by (simp add: init_eval item_a_def item_b_def item_f_def item_g_def
        example_explorer_ties_def)

lemma example_ready_ties: "ready example_explorer_ties"
  by (simp add: ready_def example_explorer_ties_def)

lemma example_query_bits_ties:
  "query_bits example_embedder example_explorer_ties (ItemQuery item_q)
     = Inr [False, False, False, False, False, False, False, True]"
  by (simp add: query_eval item_q_def)

lemma example_logits_ties:
  "calculate_hamming [False, False, False, False, False, False, False, True]
     (database_keys example_explorer_ties) = Inr [1, 1, 0, 0]"
  by (simp add: example_explorer_ties_def not_equal_row_def count_nonzero_def)

lemma example_descending_sort_ties: "descending_ties_argsort [1, 1, 0, 0] = [3, 2, 1, 0]"
  by (simp add: descending_ties_argsort_def upt_conv_Cons)

lemma example_topk_ties:
  "explore_topk example_embedder descending_ties_argsort example_explorer_ties
     (ItemQuery item_q) (Some 2) = (Inr [item_g, item_f], example_explorer_ties)"
proof -
  have "unpackbits (hash_key (HashKey (UInt8 [1])))
          = Inr [False, False, False, False, False, False, False, True]"
    by (simp add: unpackbits_def byte_bits_def upt_conv_Cons)
  moreover have "item_list example_explorer_ties = [item_a, item_b, item_f, item_g]"
    by (simp add: example_explorer_ties_def)
  ultimately show ?thesis
    using example_logits_ties example_descending_sort_ties
    by (simp add: explore_topk_def resolve_query_key_def get_hash_key_from_item_query_def
          item_q_def np_take_def slice_to_def)
qed


text \<open>
  An item indexed once per key can take several ranks of one result: on the index built
  from \<open>item_n\<close> and \<open>item_d\<close>, the query \<open>item_q\<close> with \<open>topk = 3\<close> gets \<open>item_d\<close> twice.
\<close>

lemma example_several_ranks:
  "fst (explore_topk example_embedder stable_argsort example_explorer_d (ItemQuery item_q) (Some 3))
     = Inr [item_n_inferred, item_d, item_d]"
  by (simp add: topk_eval stable_argsort_def item_q_def example_explorer_d_def
        not_equal_row_def count_nonzero_def)

section \<open>Properties of \<open>explore_topk\<close>\<close>

text \<open>
  Claim C9. Whatever the query and \<open>topk\<close>, and whether the call returns or raises,
  \<open>explore_topk\<close> leaves the matrix and the item list of the object as they were.
\<close>

theorem explore_topk_frame:
  "database_keys (snd (explore_topk emb argsort self q topk_arg)) = database_keys self
   \<and> item_list (snd (explore_topk emb argsort self q topk_arg)) = item_list self"
  by (simp add: explore_topk_state resolve_query_key_frame)

text \<open>
  Claim C6. For a query item that carries exactly one \<open>HashKey\<close> annotation, the result
  of \<open>explore_topk\<close> is a function of the matrix, the item list, the default \<open>topk\<close>, the
  item and \<open>topk\<close> alone: whatever the embedder answers and whether the models are
  loaded or not at the time of the call, two calls on objects with the same matrix, item
  list and default give the same outcome. In particular a second call, made on the object
  as the first call left it, repeats the first; the key used is the annotation of the
  item, and the call leaves the object as it was. \<open>np.argsort\<close> is a function of its
  argument; on a ready index where no two rows are at the same distance from the query
  the outcome is moreover the same for every sort that keeps the promise of
  \<open>np.argsort\<close>.
\<close>

theorem explore_topk_deterministic:
  assumes "length (filter is_HashKey (annotations item)) = 1"
    and "database_keys self' = database_keys self"
    and "item_list self' = item_list self"
    and "topk_default self' = topk_default self"
  shows "fst (explore_topk emb' argsort self' (ItemQuery item) topk_arg)
           = fst (explore_topk emb argsort self (ItemQuery item) topk_arg)
         \<and> fst (explore_topk emb argsort
                (snd (explore_topk emb argsort self (ItemQuery item) topk_arg))
                (ItemQuery item) topk_arg)
           = fst (explore_topk emb argsort self (ItemQuery item) topk_arg)
         \<and> snd (explore_topk emb argsort self (ItemQuery item) topk_arg) = self
         \<and> (\<exists>a. is_HashKey a \<and> a \<in> set (annotations item)
                \<and> fst (resolve_query_key emb self (ItemQuery item)) = Inr (Some a))
         \<and> (ready self \<and> argsort_ok argsort \<and> argsort_ok argsort'
              \<and> query_bits emb self (ItemQuery item) = Inr bits
              \<and> length bits = length (hd (database_keys self))
              \<and> distinct (map (hamming_distance bits) (database_keys self))
             \<longrightarrow> fst (explore_topk emb' argsort' self' (ItemQuery item) topk_arg)
                   = fst (explore_topk emb argsort self (ItemQuery item) topk_arg))"
proof -
  have 1: "snd (explore_topk emb argsort self (ItemQuery item) topk_arg) = self"
    by (simp add: explore_topk_state resolve_item_query_state)
  obtain a where a: "filter is_HashKey (annotations item) = [a]"
    using assms(1) by (cases "filter is_HashKey (annotations item)") auto
  then have "a \<in> set (filter is_HashKey (annotations item))" by simp
  then have 2: "is_HashKey a \<and> a \<in> set (annotations item)" by simp
  have 3: "fst (resolve_query_key emb self (ItemQuery item)) = Inr (Some a)"
    using resolve_one_key [OF a, of emb self] by simp
  have 0: "fst (explore_topk emb' srt self' (ItemQuery item) topk_arg)
           = fst (explore_topk emb srt self (ItemQuery item) topk_arg)" for srt
    using resolve_one_key [OF a, of emb self] resolve_one_key [OF a, of emb' self'] assms(2,3,4)
    by (simp add: explore_topk_def split: sum.splits option.splits)
  have 4: "fst (explore_topk emb argsort
                (snd (explore_topk emb argsort self (ItemQuery item) topk_arg))
                (ItemQuery item) topk_arg)
           = fst (explore_topk emb argsort self (ItemQuery item) topk_arg)"
    by (simp only: 1)
  have 5: "\<exists>a. is_HashKey a \<and> a \<in> set (annotations item)
                \<and> fst (resolve_query_key emb self (ItemQuery item)) = Inr (Some a)"
    using 2 3 by (intro exI [of _ a]) simp
  have 6: "fst (explore_topk emb' argsort' self' (ItemQuery item) topk_arg)
             = fst (explore_topk emb argsort self (ItemQuery item) topk_arg)"
    if h: "ready self \<and> argsort_ok argsort \<and> argsort_ok argsort'
              \<and> query_bits emb self (ItemQuery item) = Inr bits
              \<and> length bits = length (hd (database_keys self))
              \<and> distinct (map (hamming_distance bits) (database_keys self))"
  proof -
    from h have rdy: "ready self" and ok: "argsort_ok argsort" and ok': "argsort_ok argsort'"
      and qb: "query_bits emb self (ItemQuery item) = Inr bits"
      and len: "length bits = length (hd (database_keys self))"
      and dist: "distinct (map (hamming_distance bits) (database_keys self))"
      by simp_all
    have "ranking argsort' self bits = ranking argsort self bits"
      unfolding ranking_def by (rule argsort_unique_without_ties [OF ok' ok dist])
    then have "fst (explore_topk emb argsort' self (ItemQuery item) topk_arg)
                 = fst (explore_topk emb argsort self (ItemQuery item) topk_arg)"
      using explore_topk_ranked [OF rdy qb len ok, of topk_arg]
        explore_topk_ranked [OF rdy qb len ok', of topk_arg]
      by simp
    then show ?thesis using 0 [of argsort'] by simp
  qed
  from 0 [of argsort] 4 1 5 6 show ?thesis by (intro conjI impI)
qed

theorem explore_topk_deterministic_witness:
  "length (filter is_HashKey (annotations item_q)) = 1
   \<and> fst (explore_topk silent_embedder stable_argsort
            (example_explorer\<lparr>model_loaded := True, text_model_loaded := True\<rparr>)
            (ItemQuery item_q) (Some 2))
       = fst (explore_topk example_embedder stable_argsort example_explorer
                (ItemQuery item_q) (Some 2))
   \<and> fst (explore_topk example_embedder stable_argsort
            (snd (explore_topk example_embedder stable_argsort example_explorer
                    (ItemQuery item_q) (Some 2)))
            (ItemQuery item_q) (Some 2))
       = fst (explore_topk example_embedder stable_argsort example_explorer
                (ItemQuery item_q) (Some 2))
   \<and> fst (explore_topk example_embedder stable_argsort example_explorer
            (ItemQuery item_q) (Some 2)) = Inr [item_a, item_b]
   \<and> distinct (map (hamming_distance [False, False, False, False, False, False, True, True])
                 (database_keys example_explorer))
   \<and> fst (explore_topk silent_embedder descending_ties_argsort
            (example_explorer\<lparr>model_loaded := True, text_model_loaded := True\<rparr>)
            (ItemQuery item_r) (Some 5))
       = fst (explore_topk example_embedder stable_argsort example_explorer
                (ItemQuery item_r) (Some 5))
   \<and> fst (explore_topk example_embedder stable_argsort example_explorer
            (ItemQuery item_r) (Some 5)) = Inr [item_b, item_a, item_c]"
proof -
  have h: "length (filter is_HashKey (annotations item_q)) = 1"
    by (simp add: item_q_def)
  have hr: "length (filter is_HashKey (annotations item_r)) = 1"
    by (simp add: item_r_def)
  have lenr: "length [False, False, False, False, False, False, True, True]
                = length (hd (database_keys example_explorer))"
    by (simp add: example_explorer_def)
  have dist: "distinct (map (hamming_distance
                               [False, False, False, False, False, False, True, True])
                 (database_keys example_explorer))"
    by (simp add: example_distances_r)
  have u: "fst (explore_topk silent_embedder descending_ties_argsort
            (example_explorer\<lparr>model_loaded := True, text_model_loaded := True\<rparr>)
            (ItemQuery item_r) (Some 5))
       = fst (explore_topk example_embedder stable_argsort example_explorer
                (ItemQuery item_r) (Some 5))"
    using explore_topk_deterministic [OF hr,
        of "example_explorer\<lparr>model_loaded := True, text_model_loaded := True\<rparr>"
           example_explorer silent_embedder stable_argsort "Some 5" example_embedder
           descending_ties_argsort "[False, False, False, False, False, False, True, True]"]
      example_ready stable_argsort_ok descending_ties_argsort_ok example_query_bits_r lenr dist
    by simp
  have v: "fst (explore_topk example_embedder stable_argsort example_explorer
            (ItemQuery item_q) (Some 2)) = Inr [item_a, item_b]"
    by (simp add: example_topk example_stable_sort np_take_def slice_to_def effective_topk_def)
  have t: "fst (explore_topk silent_embedder stable_argsort
            (example_explorer\<lparr>model_loaded := True, text_model_loaded := True\<rparr>)
            (ItemQuery item_q) (Some 2))
       = fst (explore_topk example_embedder stable_argsort example_explorer
                (ItemQuery item_q) (Some 2))
     \<and> fst (explore_topk example_embedder stable_argsort
            (snd (explore_topk example_embedder stable_argsort example_explorer
                    (ItemQuery item_q) (Some 2)))
            (ItemQuery item_q) (Some 2))
       = fst (explore_topk example_embedder stable_argsort example_explorer
                (ItemQuery item_q) (Some 2))"
    using explore_topk_deterministic [OF h,
        of "example_explorer\<lparr>model_loaded := True, text_model_loaded := True\<rparr>"
           example_explorer silent_embedder stable_argsort "Some 2" example_embedder]
    by simp
  from t have t1: "fst (explore_topk silent_embedder stable_argsort
            (example_explorer\<lparr>model_loaded := True, text_model_loaded := True\<rparr>)
            (ItemQuery item_q) (Some 2))
       = fst (explore_topk example_embedder stable_argsort example_explorer
                (ItemQuery item_q) (Some 2))"
    and t2: "fst (explore_topk example_embedder stable_argsort
            (snd (explore_topk example_embedder stable_argsort example_explorer
                    (ItemQuery item_q) (Some 2)))
            (ItemQuery item_q) (Some 2))
       = fst (explore_topk example_embedder stable_argsort example_explorer
                (ItemQuery item_q) (Some 2))"
    by simp_all
  from h t1 t2 v dist u example_topk_r show ?thesis by (intro conjI)
qed

text \<open>
  Claim C5. On a ready index of \<open>M\<close> items and for a resolvable query, \<open>explore_topk\<close>
  with \<open>topk\<close> greater than \<open>M\<close> raises nothing and returns exactly \<open>M\<close> items: the full
  ranked list, that is the items taken along a permutation of the row indices on which
  the Hamming distance to the bits of the query never decreases. It is the list that
  \<open>topk = M\<close> returns.
\<close>

theorem explore_topk_clamps:
  assumes "ready self" and "argsort_ok argsort" and "resolvable emb self q"
    and "int (length (item_list self)) < k"
  shows "\<exists>res bits ind.
           fst (explore_topk emb argsort self q (Some k)) = Inr res
           \<and> length res = length (item_list self)
           \<and> mset res = mset (item_list self)
           \<and> fst (explore_topk emb argsort self q (Some (int (length (item_list self)))))
               = Inr res
           \<and> query_bits emb self q = Inr bits
           \<and> mset ind = mset [0..<length (item_list self)]
           \<and> sorted (map (\<lambda>i. hamming_distance bits (database_keys self ! i)) ind)
           \<and> res = map ((!) (item_list self)) ind"
proof -
  from assms(3) obtain bits where qb: "query_bits emb self q = Inr bits"
    and len: "length bits = length (hd (database_keys self))"
    by (auto simp: resolvable_def split: sum.splits)
  let ?ind = "ranking argsort self bits"
  let ?full = "map ((!) (item_list self)) ?ind"
  have m: "mset ?full = mset (item_list self)"
    using ranked_items_mset [OF assms(2) assms(1)] .
  then have l: "length ?full = length (item_list self)"
    by (metis size_mset)
  have k: "effective_topk self (Some k) = k"
    using assms(4) by (simp add: effective_topk_def)
  have "slice_to ?full k = ?full"
    using assms(4) l by (simp add: slice_to_def)
  then have 1: "fst (explore_topk emb argsort self q (Some k)) = Inr ?full"
    using explore_topk_ranked [OF assms(1) qb len assms(2), of "Some k"] k by simp
  have "0 < length (item_list self)"
    using assms(1) by (simp add: ready_def)
  then have 2: "fst (explore_topk emb argsort self q (Some (int (length (item_list self)))))
                  = Inr ?full"
    using explore_topk_ranked [OF assms(1) qb len assms(2),
        of "Some (int (length (item_list self)))"] l
    by (simp add: effective_topk_def slice_to_def)
  have n: "length (database_keys self) = length (item_list self)"
    using assms(1) by (simp add: ready_def)
  have 3: "mset ?ind = mset [0..<length (item_list self)]"
    using ranking_mset [OF assms(2), of self bits] by (simp only: n)
  have 4: "sorted (map (\<lambda>i. hamming_distance bits (database_keys self ! i)) ?ind)"
    using ranking_sorted [OF assms(2)] .
  from 1 l m 2 qb 3 4 show ?thesis by blast
qed

theorem explore_topk_clamps_witness:
  "ready example_explorer \<and> argsort_ok stable_argsort
   \<and> resolvable example_embedder example_explorer (ItemQuery item_r)
   \<and> int (length (item_list example_explorer)) < 5
   \<and> fst (explore_topk example_embedder stable_argsort example_explorer
            (ItemQuery item_r) (Some 5)) = Inr [item_b, item_a, item_c]
   \<and> (\<exists>ind. mset ind = mset [0..<length (item_list example_explorer)]
          \<and> sorted (map (\<lambda>i. hamming_distance
                                  [False, False, False, False, False, False, True, True]
                                  (database_keys example_explorer ! i)) ind)
          \<and> [item_b, item_a, item_c] = map ((!) (item_list example_explorer)) ind)"
proof -
  have h: "int (length (item_list example_explorer)) < 5"
    by (simp add: example_explorer_def)
  obtain res bits ind where r:
    "fst (explore_topk example_embedder stable_argsort example_explorer
            (ItemQuery item_r) (Some 5)) = Inr res"
    "query_bits example_embedder example_explorer (ItemQuery item_r) = Inr bits"
    "mset ind = mset [0..<length (item_list example_explorer)]"
    "sorted (map (\<lambda>i. hamming_distance bits (database_keys example_explorer ! i)) ind)"
    "res = map ((!) (item_list example_explorer)) ind"
    using explore_topk_clamps [OF example_ready stable_argsort_ok example_resolvable_r h]
    by (elim exE conjE) (rule that, assumption+)
  have res: "res = [item_b, item_a, item_c]"
    using r(1) example_topk_r by simp
  have bits: "bits = [False, False, False, False, False, False, True, True]"
    using r(2) example_query_bits_r by simp
  have e: "\<exists>ind. mset ind = mset [0..<length (item_list example_explorer)]
          \<and> sorted (map (\<lambda>i. hamming_distance
                                  [False, False, False, False, False, False, True, True]
                                  (database_keys example_explorer ! i)) ind)
          \<and> [item_b, item_a, item_c] = map ((!) (item_list example_explorer)) ind"
    using r(3) r(4) [unfolded bits] r(5) [unfolded res]
    by (intro exI [of _ ind] conjI) assumption+
  from example_ready stable_argsort_ok example_resolvable_r h example_topk_r e
  show ?thesis by (intro conjI)
qed

text \<open>
  Claim C3, as the code has it. On a ready index of \<open>M\<close> items and for a resolvable
  query, an explicit \<open>topk = 0\<close> is treated exactly as an absent \<open>topk\<close>: the configured
  default is used. An explicit negative \<open>topk\<close> is used as the end of a Python slice: the
  result is the full ranked list without its last \<open>-topk\<close> entries, which is empty only
  when \<open>-topk\<close> is at least \<open>M\<close>.
\<close>

theorem explore_topk_nonpositive:
  assumes "ready self" and "argsort_ok argsort" and "resolvable emb self q"
  shows "\<exists>full. fst (explore_topk emb argsort self q (Some (int (length (item_list self)))))
                  = Inr full
           \<and> length full = length (item_list self)
           \<and> explore_topk emb argsort self q (Some 0) = explore_topk emb argsort self q None
           \<and> fst (explore_topk emb argsort self q None) = Inr (slice_to full (topk_default self))
           \<and> (\<forall>k<0. fst (explore_topk emb argsort self q (Some k))
                        = Inr (take (length full - nat (- k)) full))"
proof -
  from assms(3) obtain bits where qb: "query_bits emb self q = Inr bits"
    and len: "length bits = length (hd (database_keys self))"
    by (auto simp: resolvable_def split: sum.splits)
  let ?full = "map ((!) (item_list self)) (ranking argsort self bits)"
  note ranked = explore_topk_ranked [OF assms(1) qb len assms(2)]
  have l: "length ?full = length (item_list self)"
    using ranked_items_mset [OF assms(2) assms(1), of bits] by (metis size_mset)
  have pos: "0 < length (item_list self)"
    using assms(1) by (simp add: ready_def)
  have 1: "fst (explore_topk emb argsort self q (Some (int (length (item_list self)))))
             = Inr ?full"
    using ranked [of "Some (int (length (item_list self)))"] l pos
    by (simp add: effective_topk_def slice_to_def)
  have 2: "explore_topk emb argsort self q (Some 0) = explore_topk emb argsort self q None"
    by (simp add: explore_topk_def)
  have 3: "fst (explore_topk emb argsort self q None) = Inr (slice_to ?full (topk_default self))"
    using ranked [of None] by (simp add: effective_topk_def)
  have 4: "\<forall>k<0. fst (explore_topk emb argsort self q (Some k))
                        = Inr (take (length ?full - nat (- k)) ?full)"
    using ranked by (simp add: effective_topk_def slice_to_def)
  show ?thesis using 1 2 3 4 l by blast
qed

theorem explore_topk_nonpositive_witness:
  "ready example_explorer \<and> argsort_ok stable_argsort
   \<and> resolvable example_embedder example_explorer (ItemQuery item_q)
   \<and> (\<exists>full. fst (explore_topk example_embedder stable_argsort example_explorer
                     (ItemQuery item_q) (Some 3)) = Inr full
           \<and> length full = 3
           \<and> explore_topk example_embedder stable_argsort example_explorer
                 (ItemQuery item_q) (Some 0)
               = explore_topk example_embedder stable_argsort example_explorer
                   (ItemQuery item_q) None
           \<and> fst (explore_topk example_embedder stable_argsort example_explorer
                    (ItemQuery item_q) (Some (- 2))) = Inr (take 1 full))"
proof -
  have n: "length (item_list example_explorer) = 3"
    by (simp add: example_explorer_def)
  obtain full where f:
    "fst (explore_topk example_embedder stable_argsort example_explorer
            (ItemQuery item_q) (Some (int (length (item_list example_explorer))))) = Inr full"
    "length full = length (item_list example_explorer)"
    "explore_topk example_embedder stable_argsort example_explorer (ItemQuery item_q) (Some 0)
       = explore_topk example_embedder stable_argsort example_explorer (ItemQuery item_q) None"
    "\<forall>k<0. fst (explore_topk example_embedder stable_argsort example_explorer
                   (ItemQuery item_q) (Some k)) = Inr (take (length full - nat (- k)) full)"
    using explore_topk_nonpositive [OF example_ready stable_argsort_ok example_resolvable]
    by blast
  have "fst (explore_topk example_embedder stable_argsort example_explorer
               (ItemQuery item_q) (Some (- 2))) = Inr (take (length full - nat (- (- 2))) full)"
    using f(4) by simp
  then have "fst (explore_topk example_embedder stable_argsort example_explorer
               (ItemQuery item_q) (Some (- 2))) = Inr (take 1 full)"
    using f(2) n by simp
  then show ?thesis
    using f(1,2,3) n example_ready stable_argsort_ok example_resolvable by auto
qed

text \<open>
  Claim C3 as worded fails: on the index of three items with the default 10, \<open>topk = 0\<close>
  returns all three items (the default is used), and \<open>topk = -1\<close> returns two items.
\<close>

theorem nonpositive_topk_counterexample:
  "Explorer_init example_embedder [[item_a, item_b, item_c]] 10 = Inr example_explorer
   \<and> explore_topk example_embedder stable_argsort example_explorer (ItemQuery item_q) (Some 0)
       = (Inr [item_a, item_b, item_c], example_explorer)
   \<and> explore_topk example_embedder stable_argsort example_explorer (ItemQuery item_q) (Some (- 1))
       = (Inr [item_a, item_b], example_explorer)"
proof -
  have d: "topk_default example_explorer = 10"
    by (simp add: example_explorer_def)
  show ?thesis
    using d
    by (simp add: example_init example_topk example_stable_sort np_take_def slice_to_def
          effective_topk_def)
qed


text \<open>
  Claim C2, as the code has it. On a ready index and for query bits of the length of the
  rows, \<open>explore_topk\<close> ranks the row indices by ascending Hamming distance: the result is
  the slice of the items taken along a permutation \<open>ind\<close> of the row indices on which the
  distance to the query never decreases. The code passes no sort kind to \<open>np.argsort\<close>,
  so nothing fixes the order of two rows at the same distance.
\<close>

theorem explore_topk_ascending:
  assumes "ready self" and "argsort_ok argsort"
    and "query_bits emb self q = Inr bits"
    and "length bits = length (hd (database_keys self))"
  shows "\<exists>logits ind.
           calculate_hamming bits (database_keys self) = Inr logits
           \<and> mset ind = mset [0..<length (database_keys self)]
           \<and> sorted (map ((!) logits) ind)
           \<and> fst (explore_topk emb argsort self q topk_arg)
               = Inr (slice_to (map ((!) (item_list self)) ind)
                       (case topk_arg of None \<Rightarrow> topk_default self
                        | Some k \<Rightarrow> if k = 0 then topk_default self else k))"
proof -
  let ?logits = "map (hamming_distance bits) (database_keys self)"
  let ?ind = "ranking argsort self bits"
  have "list_all (\<lambda>r. length r = length bits) (database_keys self)"
    using assms(1,4) by (simp add: ready_def)
  then have 1: "calculate_hamming bits (database_keys self) = Inr ?logits"
    by (rule calculate_hamming_rows)
  have 2: "mset ?ind = mset [0..<length (database_keys self)]"
    using ranking_mset [OF assms(2)] .
  have 3: "sorted (map ((!) ?logits) ?ind)"
    using argsort_ok_sorted [OF assms(2)] by (simp add: ranking_def)
  have 4: "fst (explore_topk emb argsort self q topk_arg)
               = Inr (slice_to (map ((!) (item_list self)) ?ind)
                       (case topk_arg of None \<Rightarrow> topk_default self
                        | Some k \<Rightarrow> if k = 0 then topk_default self else k))"
    using explore_topk_ranked [OF assms(1,3,4,2), of topk_arg]
    by (simp add: effective_topk_def)
  show ?thesis using 1 2 3 4 by blast
qed

theorem explore_topk_ascending_witness:
  "ready example_explorer_ties \<and> argsort_ok descending_ties_argsort
   \<and> query_bits example_embedder example_explorer_ties (ItemQuery item_q)
       = Inr [False, False, False, False, False, False, False, True]
   \<and> (\<exists>logits ind.
         calculate_hamming [False, False, False, False, False, False, False, True]
           (database_keys example_explorer_ties) = Inr logits
         \<and> mset ind = mset [0..<length (database_keys example_explorer_ties)]
         \<and> sorted (map ((!) logits) ind)
         \<and> fst (explore_topk example_embedder descending_ties_argsort example_explorer_ties
                  (ItemQuery item_q) (Some 2))
             = Inr (slice_to (map ((!) (item_list example_explorer_ties)) ind) 2))"
proof -
  have len: "length [False, False, False, False, False, False, False, True]
               = length (hd (database_keys example_explorer_ties))"
    by (simp add: example_explorer_ties_def)
  show ?thesis
    using explore_topk_ascending [OF example_ready_ties descending_ties_argsort_ok
        example_query_bits_ties len, of "Some 2"]
      example_ready_ties descending_ties_argsort_ok example_query_bits_ties
    by simp
qed

text \<open>
  Claim C2 as worded fails. In the index built from \<open>item_a\<close>, \<open>item_b\<close>, \<open>item_f\<close>,
  \<open>item_g\<close> the distances to the query \<open>item_q\<close> are 1, 1, 0, 0: \<open>item_f\<close> (row 2) and
  \<open>item_g\<close> (row 3) are both at distance 0. For these distances the indices 3, 2, 1, 0
  sort the array, and a sort that keeps the promise of \<open>np.argsort\<close> returns them; then
  \<open>explore_topk\<close> with \<open>topk = 2\<close> returns \<open>item_g\<close> before \<open>item_f\<close>, the larger index
  first.
\<close>

theorem unstable_ties_counterexample:
  "Explorer_init example_embedder [[item_a, item_b, item_f, item_g]] 10
     = Inr example_explorer_ties
   \<and> item_list example_explorer_ties = [item_a, item_b, item_f, item_g]
   \<and> calculate_hamming [False, False, False, False, False, False, False, True]
        (database_keys example_explorer_ties) = Inr [1, 1, 0, 0]
   \<and> argsort_ok descending_ties_argsort
   \<and> descending_ties_argsort [1, 1, 0, 0] = [3, 2, 1, 0]
   \<and> explore_topk example_embedder descending_ties_argsort example_explorer_ties
        (ItemQuery item_q) (Some 2) = (Inr [item_g, item_f], example_explorer_ties)"
proof -
  have 1: "item_list example_explorer_ties = [item_a, item_b, item_f, item_g]"
    by (simp add: example_explorer_ties_def)
  from example_init_ties 1 example_logits_ties descending_ties_argsort_ok
    example_descending_sort_ties example_topk_ties
  show ?thesis by (intro conjI)
qed

text \<open>
  Claim C7. On a ready index, let the bits of the query be equal to row \<open>i\<close> of the
  matrix, and let no row at distance 0 stand before row \<open>i\<close> in the ranking. Then
  \<open>explore_topk\<close> with \<open>topk \<ge> 1\<close> returns a list whose first entry is the item of row
  \<open>i\<close>, and the Hamming distance of that row to the query is 0.
\<close>

theorem explore_topk_self_identity:
  assumes rdy: "ready self" and ok: "argsort_ok argsort"
    and qb: "query_bits emb self q = Inr bits"
    and i: "i < length (database_keys self)"
    and same: "bits = database_keys self ! i"
    and k: "1 \<le> k"
    and first: "\<forall>p r. p < r \<and> r < length (database_keys self)
                        \<and> ranking argsort self bits ! r = i
                  \<longrightarrow> hamming_distance bits (database_keys self ! (ranking argsort self bits ! p))
                        \<noteq> 0"
  shows "\<exists>res. fst (explore_topk emb argsort self q (Some k)) = Inr res
               \<and> res \<noteq> [] \<and> res ! 0 = item_list self ! i
               \<and> calculate_hamming bits [database_keys self ! i] = Inr [0]"
proof -
  let ?keys = "database_keys self"
  let ?logits = "map (hamming_distance bits) ?keys"
  let ?ind = "ranking argsort self bits"
  have all: "list_all (\<lambda>r. length r = length (hd ?keys)) ?keys"
    using rdy by (simp add: ready_def)
  then have len: "length bits = length (hd ?keys)"
    using i same by (simp add: list_all_length)
  have n: "length ?ind = length ?keys"
    using argsort_ok_length [OF ok] by (simp add: ranking_def)
  have set: "set ?ind = {0..<length ?keys}"
    using argsort_ok_set [OF ok] by (simp add: ranking_def)
  have srt: "sorted (map ((!) ?logits) ?ind)"
    using argsort_ok_sorted [OF ok] by (simp add: ranking_def)
  have zero: "hamming_distance bits (?keys ! i) = 0"
    using same hamming_distance_self by simp
  from set i have "i \<in> set ?ind" by simp
  then obtain r where r: "r < length ?ind" "?ind ! r = i"
    by (auto simp: in_set_conv_nth)
  have r0: "r = 0"
  proof (rule ccontr)
    assume "r \<noteq> 0"
    then have pos: "0 < r" by simp
    have in0: "?ind ! 0 < length ?keys"
      using set r(1) pos by (metis atLeastLessThan_iff nth_mem less_trans)
    have "map ((!) ?logits) ?ind ! 0 \<le> map ((!) ?logits) ?ind ! r"
      using srt r(1) pos by (simp add: sorted_iff_nth_mono del: nth_map)
    moreover have "0 < length ?ind" using r(1) by linarith
    ultimately have "?logits ! (?ind ! 0) \<le> ?logits ! (?ind ! r)"
      using r(1) by simp
    then have "hamming_distance bits (?keys ! (?ind ! 0)) \<le> hamming_distance bits (?keys ! i)"
      using r(2) in0 i by simp
    moreover have "0 \<le> hamming_distance bits (?keys ! (?ind ! 0))"
      by (rule hamming_distance_nonneg)
    ultimately have "hamming_distance bits (?keys ! (?ind ! 0)) = 0"
      using zero by simp
    moreover have "hamming_distance bits (?keys ! (?ind ! 0)) \<noteq> 0"
      using first pos r n by auto
    ultimately show False by simp
  qed
  let ?full = "map ((!) (item_list self)) ?ind"
  have ne: "?ind \<noteq> []" using r(1) by auto
  have res: "fst (explore_topk emb argsort self q (Some k)) = Inr (take (nat k) ?full)"
    using explore_topk_ranked [OF rdy qb len ok, of "Some k"] k
    by (simp add: effective_topk_def slice_to_def)
  have nk: "0 < nat k" using k by simp
  have a: "take (nat k) ?full \<noteq> []" using ne nk by simp
  have b: "take (nat k) ?full ! 0 = item_list self ! i"
    using ne nk r r0 by simp
  have c: "calculate_hamming bits [?keys ! i] = Inr [0]"
    using calculate_hamming_rows [of bits "[?keys ! i]"] same zero by simp
  show ?thesis using res a b c by blast
qed

theorem explore_topk_self_identity_witness:
  "ready example_explorer \<and> argsort_ok stable_argsort
   \<and> query_bits example_embedder example_explorer (ItemQuery item_r)
       = Inr (database_keys example_explorer ! 1)
   \<and> (\<exists>res. fst (explore_topk example_embedder stable_argsort example_explorer
                    (ItemQuery item_r) (Some 1)) = Inr res
            \<and> res \<noteq> [] \<and> res ! 0 = item_b)"
proof -
  let ?bits = "[False, False, False, False, False, False, True, True]"
  have n: "length (database_keys example_explorer) = 3"
    by (simp add: example_explorer_def)
  have i: "1 < length (database_keys example_explorer)"
    using n by simp
  have same: "?bits = database_keys example_explorer ! 1"
    by (simp add: example_explorer_def)
  have k: "(1::int) \<le> 1" by simp
  have first: "\<forall>p r. p < r \<and> r < length (database_keys example_explorer)
                        \<and> ranking stable_argsort example_explorer ?bits ! r = 1
                  \<longrightarrow> hamming_distance ?bits (database_keys example_explorer
                         ! (ranking stable_argsort example_explorer ?bits ! p)) \<noteq> 0"
    by (auto simp: n example_ranking_r nth_Cons' less_Suc_eq numeral_3_eq_3)
  have b: "item_list example_explorer ! 1 = item_b"
    by (simp add: example_explorer_def)
  show ?thesis
    using explore_topk_self_identity [OF example_ready stable_argsort_ok example_query_bits_r
        i same k first]
      example_ready stable_argsort_ok example_query_bits_r same b
    by auto
qed


end
